theory Spec2Isabelle
  imports Main "HOL-Library.Word" "HOL-Library.AList"
begin

section \<open>The chunker: \<open>splitTextIntoChunks\<close> (src/lib/reportProcessing.ts, lines 179-205)\<close>

text \<open>
  A JavaScript string is a sequence of UTF-16 code units, and \<open>.length\<close> counts code
  units. The regular expression \<open>/\n\s*\n/\<close> has no \<open>u\<close> flag, so it works on code units
  as well.
\<close>

type_synonym code_unit = "16 word"
type_synonym jsstring = "code_unit list"

definition LF :: code_unit where
  "LF = 10"

text \<open>
  The character class \<open>\s\<close> of ECMAScript: the WhiteSpace code points (TAB, VT, FF, SP,
  NBSP, ZWNBSP and the category Zs) and the LineTerminator code points (LF, CR, LS, PS).
\<close>

definition isWhiteSpace :: "code_unit \<Rightarrow> bool" where
  "isWhiteSpace c =
     (c = 0x0009 \<or> c = 0x000A \<or> c = 0x000B \<or> c = 0x000C \<or> c = 0x000D \<or> c = 0x0020
      \<or> c = 0x00A0 \<or> c = 0x1680 \<or> (0x2000 \<le> c \<and> c \<le> 0x200A) \<or> c = 0x2028
      \<or> c = 0x2029 \<or> c = 0x202F \<or> c = 0x205F \<or> c = 0x3000 \<or> c = 0xFEFF)"

text \<open>
  The tail \<open>\s*\n\<close> of the pattern, matched at the head of the string by a backtracking
  matcher: the greedy star first takes the next white-space code unit and tries the rest;
  only when that fails does it stop and ask for the line feed here. The result is the
  number of code units the match takes.
\<close>

fun matchSpacesLF :: "jsstring \<Rightarrow> nat option" where
  "matchSpacesLF [] = None"
| "matchSpacesLF (c # cs) =
     (if isWhiteSpace c
      then (case matchSpacesLF cs of
              Some n \<Rightarrow> Some (Suc n)
            | None \<Rightarrow> if c = LF then Some 1 else None)
      else None)"

text \<open>The whole pattern \<open>/\n\s*\n/\<close> matched at the head of the string.\<close>

fun matchSeparator :: "jsstring \<Rightarrow> nat option" where
  "matchSeparator [] = None"
| "matchSeparator (c # cs) =
     (if c = LF then map_option Suc (matchSpacesLF cs) else None)"

text \<open>
  \<open>String.prototype.split\<close> with that pattern. The algorithm of the language standard
  walks an index \<open>q\<close> over the string, tries the pattern at \<open>q\<close>, and on a match pushes the
  substring from the end \<open>p\<close> of the previous match up to \<open>q\<close>; at the end it pushes the rest.
  The first argument is the substring from \<open>p\<close> to \<open>q\<close>, the second the string from \<open>q\<close> on.
  The pattern never matches the empty string, so the empty text gives one empty piece.
\<close>

function splitParagraphs :: "jsstring \<Rightarrow> jsstring \<Rightarrow> jsstring list" where
  "splitParagraphs cur [] = [cur]"
| "splitParagraphs cur (c # cs) =
     (case matchSeparator (c # cs) of
        Some n \<Rightarrow> cur # splitParagraphs [] (drop n (c # cs))
      | None \<Rightarrow> splitParagraphs (cur @ [c]) cs)"
  by pat_completeness auto
termination
proof (relation "measure (\<lambda>(cur, s). length s)")
  show "wf (measure (\<lambda>(cur, s). length s))" by simp
next
  fix cur :: jsstring and c cs n
  assume "matchSeparator (c # cs) = Some n"
  then have "0 < n" by (auto split: if_splits)
  then show "(([], drop n (c # cs)), (cur, c # cs)) \<in> measure (\<lambda>(cur, s). length s)"
    by simp
next
  fix cur :: jsstring and c cs
  show "((cur @ [c], cs), (cur, c # cs)) \<in> measure (\<lambda>(cur, s). length s)"
    by simp
qed

definition paragraphsOf :: "jsstring \<Rightarrow> jsstring list" where
  "paragraphsOf text = splitParagraphs [] text"

text \<open>
  The budget is a JavaScript number; the model takes the integers, which is what the one
  caller passes (50000). \<open>maxChars = maxTokens * charsPerToken\<close>.
\<close>

definition charsPerToken :: int where
  "charsPerToken = 4"

definition paragraphBreak :: jsstring where
  "paragraphBreak = [LF, LF]"

text \<open>The else branch of the loop: \<open>currentChunk += (currentChunk ? '\n\n' : '') + paragraph\<close>.\<close>

definition appendParagraph :: "jsstring \<Rightarrow> jsstring \<Rightarrow> jsstring" where
  "appendParagraph currentChunk paragraph =
     currentChunk @ (if currentChunk \<noteq> [] then paragraphBreak else []) @ paragraph"

text \<open>One turn of the loop over the paragraphs; the state is \<open>(chunks, currentChunk)\<close>.\<close>

definition chunkStep :: "int \<Rightarrow> jsstring list \<times> jsstring \<Rightarrow> jsstring \<Rightarrow> jsstring list \<times> jsstring" where
  "chunkStep maxChars st paragraph =
     (case st of (chunks, currentChunk) \<Rightarrow>
        if int (length currentChunk) + int (length paragraph) > maxChars \<and> length currentChunk > 0
        then (chunks @ [currentChunk], paragraph)
        else (chunks, appendParagraph currentChunk paragraph))"

definition splitTextIntoChunks :: "jsstring \<Rightarrow> int \<Rightarrow> jsstring list" where
  "splitTextIntoChunks text maxTokens =
     (let maxChars = maxTokens * charsPerToken;
          paragraphs = paragraphsOf text
      in case foldl (chunkStep maxChars) ([], []) paragraphs of
           (chunks, currentChunk) \<Rightarrow>
             if currentChunk \<noteq> [] then chunks @ [currentChunk] else chunks)"



section \<open>The merger: \<open>mergeResults\<close> (src/lib/reportProcessing.ts, lines 212-292)\<close>

subsection \<open>Data\<close>

text \<open>
  The entries of the category arrays are JavaScript objects, and the merger treats them
  generically (\<open>Object.keys\<close>, \<open>typeof\<close>, spread copy, assignment to a property). An
  object is the list of its own properties in insertion order; a property value is a
  number or a string. Numbers are the integers (the counts and amounts of a report, exact
  in a double up to \<open>2^53\<close>).
\<close>

datatype jsval = JNum int | JStr string

type_synonym entry = "(string \<times> jsval) list"

text \<open>
  The merger assigns to properties of objects, so objects live in a store and arrays hold
  references. The store is the list of all objects allocated so far; a reference is an
  index into it, and an allocation appends.
\<close>

type_synonym addr = nat
type_synonym heap = "entry list"

text \<open>
  The three scalar groups. The interface declares every field a number; a field that the
  oracle left out of its answer is \<open>None\<close>.
\<close>

record LibraryOverview =
  populationServed :: "int option"
  annualVisits :: "int option"
  registeredBorrowers :: "int option"
  openHoursPerWeek :: "int option"

record CollectionOverview =
  totalItems :: "int option"
  printMaterials :: "int option"
  physicalAudioVideo :: "int option"
  otherPhysicalItems :: "int option"

record UsageStatistics =
  physicalItemCirculation :: "int option"
  eBookCirculation :: "int option"
  eAudioCirculation :: "int option"
  referenceTransactions :: "int option"

record KeyFindings =
  strengths :: "string list option"
  areasForDevelopment :: "string list option"

text \<open>
  \<open>Partial<ReportData>\<close>: every section may be absent (\<open>undefined\<close>, or \<open>null\<close> in the
  oracle's answer: the merger tests sections for truthiness only, and an object or an array
  is always truthy).
\<close>

record ReportData =
  reportId :: "string option"
  libraryName :: "string option"
  year :: "int option"
  libraryOverview :: "LibraryOverview option"
  collectionOverview :: "CollectionOverview option"
  usageStatistics :: "UsageStatistics option"
  collectionData :: "addr list option"
  circulationData :: "addr list option"
  revenueData :: "addr list option"
  expenseData :: "addr list option"
  programData :: "addr list option"
  venueData :: "addr list option"
  summerReadingData :: "addr list option"
  keyFindings :: "KeyFindings option"

text \<open>The object \<open>{}\<close>.\<close>

definition emptyRecord :: ReportData where
  "emptyRecord =
     \<lparr>reportId = None, libraryName = None, year = None, libraryOverview = None,
      collectionOverview = None, usageStatistics = None, collectionData = None,
      circulationData = None, revenueData = None, expenseData = None, programData = None,
      venueData = None, summerReadingData = None, keyFindings = None\<rparr>"

datatype arrayProp =
  CollectionData | CirculationData | RevenueData | ExpenseData | ProgramData | VenueData
  | SummerReadingData

definition arrayProps :: "arrayProp list" where
  "arrayProps =
     [CollectionData, CirculationData, RevenueData, ExpenseData, ProgramData, VenueData,
      SummerReadingData]"

text \<open>\<open>result[prop]\<close> and \<open>merged[prop] = items\<close>.\<close>

fun getProp :: "arrayProp \<Rightarrow> ReportData \<Rightarrow> addr list option" where
  "getProp CollectionData r = collectionData r"
| "getProp CirculationData r = circulationData r"
| "getProp RevenueData r = revenueData r"
| "getProp ExpenseData r = expenseData r"
| "getProp ProgramData r = programData r"
| "getProp VenueData r = venueData r"
| "getProp SummerReadingData r = summerReadingData r"

fun setProp :: "arrayProp \<Rightarrow> addr list \<Rightarrow> ReportData \<Rightarrow> ReportData" where
  "setProp CollectionData xs r = r\<lparr>collectionData := Some xs\<rparr>"
| "setProp CirculationData xs r = r\<lparr>circulationData := Some xs\<rparr>"
| "setProp RevenueData xs r = r\<lparr>revenueData := Some xs\<rparr>"
| "setProp ExpenseData xs r = r\<lparr>expenseData := Some xs\<rparr>"
| "setProp ProgramData xs r = r\<lparr>programData := Some xs\<rparr>"
| "setProp VenueData xs r = r\<lparr>venueData := Some xs\<rparr>"
| "setProp SummerReadingData xs r = r\<lparr>summerReadingData := Some xs\<rparr>"

subsection \<open>Scalar groups (lines 216-226)\<close>

definition mergeScalars :: "ReportData \<Rightarrow> ReportData \<Rightarrow> ReportData" where
  "mergeScalars merged result =
     (let m1 = (if libraryOverview result \<noteq> None \<and> libraryOverview merged = None
                then merged\<lparr>libraryOverview := libraryOverview result\<rparr> else merged);
          m2 = (if collectionOverview result \<noteq> None \<and> collectionOverview m1 = None
                then m1\<lparr>collectionOverview := collectionOverview result\<rparr> else m1);
          m3 = (if usageStatistics result \<noteq> None \<and> usageStatistics m2 = None
                then m2\<lparr>usageStatistics := usageStatistics result\<rparr> else m2)
      in m3)"

subsection \<open>Category arrays (lines 229-265)\<close>

text \<open>
  \<open>String(n)\<close> for an integer \<open>n\<close> (below \<open>10^21\<close> in absolute value): the decimal digits,
  with a minus sign for a negative number.
\<close>

function natToString :: "nat \<Rightarrow> string" where
  "natToString n =
     (if n < 10 then [char_of (48 + n)]
      else natToString (n div 10) @ [char_of (48 + n mod 10)])"
  by pat_completeness auto
termination
  by (relation "measure (\<lambda>n. n)") auto

definition numberToString :: "int \<Rightarrow> string" where
  "numberToString i = (if i < 0 then CHR ''-'' # natToString (nat (- i)) else natToString (nat i))"

text \<open>
  \<open>(existingItem[key] || 0) + item[key]\<close>, where \<open>item[key]\<close> is the number \<open>n\<close>. A missing
  property, the number 0 and the empty string are falsy and count as 0; a non-empty string
  makes \<open>+\<close> the concatenation of strings.
\<close>

fun plusOrZero :: "jsval option \<Rightarrow> int \<Rightarrow> jsval" where
  "plusOrZero None n = JNum (0 + n)"
| "plusOrZero (Some (JNum m)) n = JNum ((if m = 0 then 0 else m) + n)"
| "plusOrZero (Some (JStr s)) n = (if s = [] then JNum (0 + n) else JStr (s @ numberToString n))"

text \<open>
  One turn of \<open>for (const key of Object.keys(item))\<close>: \<open>item\<close> and \<open>existingItem\<close> are
  references, and both objects are read from the store as it is at that moment.
  \<open>AList.update\<close> overwrites the property where it stands, or appends it, as an assignment
  to a property does (for the keys of the interface, none of which is an array index).
\<close>

definition addKey :: "addr \<Rightarrow> addr \<Rightarrow> heap \<Rightarrow> string \<Rightarrow> heap" where
  "addKey item existingItem h key =
     (case map_of (h ! item) key of
        Some (JNum n) \<Rightarrow>
          if key \<noteq> ''name''
          then h[existingItem :=
                   AList.update key (plusOrZero (map_of (h ! existingItem) key) n) (h ! existingItem)]
          else h
      | _ \<Rightarrow> h)"

text \<open>
  The body of \<open>for (const item of arr)\<close>. The state is the store, the array \<open>items\<close> and the
  \<open>nameMap\<close>. The key of the map is \<open>item.name\<close>, which is \<open>undefined\<close> (\<open>None\<close>) for an object
  without that property. \<open>{...item}\<close> allocates a copy of the object. An index stored in
  the map is the length of \<open>items\<close> at the moment of the \<open>push\<close> that follows, so
  \<open>items[index]\<close> is always there (lemma \<open>mergeItems_frame\<close> below); a reference read from
  an array of the input points into the store when the input is well formed.
\<close>

type_synonym nameMap = "jsval option \<Rightarrow> nat option"
type_synonym mergeState = "heap \<times> addr list \<times> nameMap"

definition mergeItem :: "mergeState \<Rightarrow> addr \<Rightarrow> mergeState" where
  "mergeItem st item =
     (case st of (h, items, nameMap) \<Rightarrow>
        (case nameMap (map_of (h ! item) ''name'') of
           Some index \<Rightarrow>
             (foldl (addKey item (items ! index)) h (map fst (h ! item)), items, nameMap)
         | None \<Rightarrow>
             (h @ [h ! item], items @ [length h],
              nameMap(map_of (h ! item) ''name'' \<mapsto> length items))))"

text \<open>The body of \<open>for (const result of results)\<close>, with its \<open>if (!arr) continue\<close>.\<close>

definition mergeArray :: "arrayProp \<Rightarrow> mergeState \<Rightarrow> ReportData \<Rightarrow> mergeState" where
  "mergeArray prop st result =
     (case getProp prop result of None \<Rightarrow> st | Some arr \<Rightarrow> foldl mergeItem st arr)"

text \<open>The body of \<open>for (const prop of arrayProps)\<close>.\<close>

definition mergeProp :: "ReportData list \<Rightarrow> ReportData \<times> heap \<Rightarrow> arrayProp \<Rightarrow> ReportData \<times> heap" where
  "mergeProp results mh prop =
     (case mh of (merged, h) \<Rightarrow>
        (case foldl (mergeArray prop) (h, [], Map.empty) results of
           (h', items, nameMap) \<Rightarrow>
             (if length items > 0 then setProp prop items merged else merged, h')))"

subsection \<open>Key findings (lines 268-289)\<close>

text \<open>
  A JavaScript \<open>Set\<close> keeps its elements in insertion order, and \<open>Array.from\<close> lists them in
  that order: the set is the list of its elements, and \<open>add\<close> appends a new one.
\<close>

definition setAdd :: "'a list \<Rightarrow> 'a \<Rightarrow> 'a list" where
  "setAdd s x = (if x \<in> set s then s else s @ [x])"

definition collectFindings :: "string list \<times> string list \<Rightarrow> ReportData \<Rightarrow> string list \<times> string list" where
  "collectFindings sets result =
     (case sets of (strengthSet, areaSet) \<Rightarrow>
        (case keyFindings result of
           None \<Rightarrow> (strengthSet, areaSet)
         | Some kf \<Rightarrow>
             ((case strengths kf of None \<Rightarrow> strengthSet | Some xs \<Rightarrow> foldl setAdd strengthSet xs),
              (case areasForDevelopment kf of None \<Rightarrow> areaSet | Some xs \<Rightarrow> foldl setAdd areaSet xs))))"

definition mergeKeyFindings :: "ReportData list \<Rightarrow> ReportData \<Rightarrow> ReportData" where
  "mergeKeyFindings results merged =
     (if list_ex (\<lambda>r. keyFindings r \<noteq> None) results
      then (case foldl collectFindings ([], []) results of
              (strengthSet, areaSet) \<Rightarrow>
                merged\<lparr>keyFindings :=
                  Some \<lparr>strengths = Some (take 5 strengthSet),
                        areasForDevelopment = Some (take 5 areaSet)\<rparr>\<rparr>)
      else merged)"

subsection \<open>The whole function\<close>

definition mergeResults :: "heap \<Rightarrow> ReportData list \<Rightarrow> ReportData \<times> heap" where
  "mergeResults h results =
     (case foldl (mergeProp results) (foldl mergeScalars emptyRecord results, h) arrayProps of
        (merged, h') \<Rightarrow> (mergeKeyFindings results merged, h'))"

section \<open>The oracle client: \<open>callClaudeAPI\<close> and \<open>processLargePdfWithClaudeAI\<close> (lines 301-518)\<close>

text \<open>
  The two prompts are strings built from the library name, the year, the number of the
  chunk, the number of chunks and the text of the chunk; the model keeps these five values
  instead of the strings.
\<close>

record request =
  promptLibraryName :: string
  promptYear :: int
  chunkNumber :: nat
  chunkCount :: nat
  chunkText :: jsstring

text \<open>
  What \<open>fetch\<close> and \<open>response.json()\<close> give for a request: the promise is rejected (no
  network, or a body that is not JSON), the status is not ok, or there is a body, of which
  the client reads the texts of \<open>data.content\<close> (a missing \<open>content\<close> is the empty list).
\<close>

datatype httpReply = FetchRejected | NotOk | Content "jsstring list"

text \<open>
  The client's surroundings: the two environment variables, the remote service, and the
  step from the text of the answer to a record (the two regular expressions that cut the
  JSON out of the text, and \<open>JSON.parse\<close>, which allocates the objects of the arrays and
  throws, here \<open>None\<close>, on a text that is not JSON).
\<close>

record oracleEnv =
  claudeApiKey :: "string option"
  nextPublicClaudeApiKey :: "string option"
  fetchMessages :: "request \<Rightarrow> httpReply"
  parseJson :: "heap \<Rightarrow> jsstring \<Rightarrow> (ReportData \<times> heap) option"

datatype apiError = ApiKeyNotFound | FetchFailed | ApiStatusError | EmptyResponse | ParseFailed

text \<open>
  \<open>process.env.CLAUDE_API_KEY || process.env.NEXT_PUBLIC_CLAUDE_API_KEY\<close>, followed by
  \<open>if (!apiKey)\<close>: a variable that is not set and one that is the empty string are falsy.
\<close>

definition truthyString :: "string option \<Rightarrow> bool" where
  "truthyString v = (case v of None \<Rightarrow> False | Some s \<Rightarrow> s \<noteq> [])"

definition resolveApiKey :: "oracleEnv \<Rightarrow> string option" where
  "resolveApiKey env =
     (let apiKey = (if truthyString (claudeApiKey env) then claudeApiKey env
                    else nextPublicClaudeApiKey env)
      in if truthyString apiKey then apiKey else None)"

text \<open>
  \<open>callClaudeAPI\<close>: every \<open>throw\<close> of the function (and every rejected promise inside it) is
  a left result; the outer \<open>catch\<close> logs and throws the same error again.
\<close>

definition callClaudeAPI :: "oracleEnv \<Rightarrow> heap \<Rightarrow> request \<Rightarrow> (apiError + ReportData) \<times> heap" where
  "callClaudeAPI env h req =
     (case resolveApiKey env of
        None \<Rightarrow> (Inl ApiKeyNotFound, h)
      | Some apiKey \<Rightarrow>
          (case fetchMessages env req of
             FetchRejected \<Rightarrow> (Inl FetchFailed, h)
           | NotOk \<Rightarrow> (Inl ApiStatusError, h)
           | Content blocks \<Rightarrow>
               (case blocks of
                  [] \<Rightarrow> (Inl EmptyResponse, h)
                | content # rest \<Rightarrow>
                    (case parseJson env h content of
                       None \<Rightarrow> (Inl ParseFailed, h)
                     | Some (result, h') \<Rightarrow> (Inr result, h')))))"

text \<open>
  The body of the loop over the chunks, with its own \<open>try\<close> and \<open>catch\<close>: a result is
  pushed, an error is written to the console (the second component of the state, with the
  number of the chunk) and nothing is pushed.
\<close>

type_synonym chunkState = "ReportData list \<times> (nat \<times> apiError) list \<times> heap"

definition processChunk :: "oracleEnv \<Rightarrow> int \<Rightarrow> string \<Rightarrow> nat \<Rightarrow> chunkState \<Rightarrow> nat \<times> jsstring \<Rightarrow> chunkState" where
  "processChunk env yr lib n st ic =
     (case st of (results, console, h) \<Rightarrow>
        (case ic of (i, chunk) \<Rightarrow>
           (case callClaudeAPI env h
                   \<lparr>promptLibraryName = lib, promptYear = yr, chunkNumber = i + 1,
                    chunkCount = n, chunkText = chunk\<rparr> of
              (Inr chunkResult, h') \<Rightarrow> (results @ [chunkResult], console, h')
            | (Inl e, h') \<Rightarrow> (results, console @ [(i + 1, e)], h'))))"

text \<open>
  \<open>processLargePdfWithClaudeAI\<close>. Nothing in its \<open>try\<close> block throws outside the inner
  \<open>try\<close> (the chunker and the merger do not throw on a text and on records of the shape
  of the interface), so its outer \<open>catch\<close> has no branch here; the result is still written
  as a sum, the type of a function that may throw.
\<close>

definition processLargePdfWithClaudeAI ::
    "oracleEnv \<Rightarrow> heap \<Rightarrow> jsstring \<Rightarrow> int \<Rightarrow> string \<Rightarrow> (apiError + ReportData) \<times> (nat \<times> apiError) list \<times> heap" where
  "processLargePdfWithClaudeAI env h pdfText yr lib =
     (let chunks = splitTextIntoChunks pdfText 50000
      in case foldl (processChunk env yr lib (length chunks)) ([], [], h)
                (zip [0..<length chunks] chunks) of
           (results, console, h') \<Rightarrow>
             (case mergeResults h' results of (merged, h'') \<Rightarrow> (Inr merged, console, h'')))"

section \<open>The orchestrator: \<open>processReportWithAI\<close> (lines 66-170)\<close>

datatype reportStatus = Processing | Completed | Failed

text \<open>
  A document of the collection \<open>reports\<close> (the interface \<open>Report\<close> of the pages that read
  it), and a document of the collection \<open>libraries\<close>.
\<close>

record reportDoc =
  status :: reportStatus
  errorMessage :: "string option"
  pdfPath :: string
  libraryId :: string
  docYear :: int
  updatedAt :: nat

record libraryDoc =
  libraryDocName :: "string option"

record world =
  reports :: "string \<Rightarrow> reportDoc option"
  libraries :: "string \<Rightarrow> libraryDoc option"
  reportData :: "string \<Rightarrow> ReportData option"
  store :: heap
  consoleErrors :: nat

datatype operation =
  UpdateProcessing | GetReport | GetLibrary | SetReportData | UpdateCompleted | UpdateFailed

datatype pdfReply = PdfFetchRejected | PdfNotOk | PdfParseFailed | PdfText jsstring

datatype pipelineError =
  FirestoreError operation | ReportNotFound | LibraryNotFound | PdfError pdfReply
  | OracleError apiError

text \<open>
  What the run does not decide: which calls of the document store fail (an outage, a
  refused permission), what the download and \<open>pdf-parse\<close> give for a URL, the oracle's
  surroundings, and the time.
\<close>

record services =
  firestoreFails :: "operation \<Rightarrow> bool"
  fetchPdf :: "string \<Rightarrow> pdfReply"
  oracleEnvOf :: oracleEnv
  now :: nat

text \<open>
  \<open>updateDoc\<close> of the document store: it fails on a document that does not exist.
\<close>

definition updateDoc :: "services \<Rightarrow> operation \<Rightarrow> string \<Rightarrow> (reportDoc \<Rightarrow> reportDoc) \<Rightarrow> world \<Rightarrow> pipelineError + world" where
  "updateDoc sv op rid f w =
     (if firestoreFails sv op then Inl (FirestoreError op)
      else (case reports w rid of
              None \<Rightarrow> Inl (FirestoreError op)
            | Some d \<Rightarrow> Inr (w\<lparr>reports := (reports w)(rid \<mapsto> f d)\<rparr>)))"

definition setDoc :: "services \<Rightarrow> string \<Rightarrow> ReportData \<Rightarrow> world \<Rightarrow> pipelineError + world" where
  "setDoc sv rid d w =
     (if firestoreFails sv SetReportData then Inl (FirestoreError SetReportData)
      else Inr (w\<lparr>reportData := (reportData w)(rid \<mapsto> d)\<rparr>))"

definition downloadAndExtractPdfText :: "services \<Rightarrow> string \<Rightarrow> pipelineError + jsstring" where
  "downloadAndExtractPdfText sv pdfUrl =
     (case fetchPdf sv pdfUrl of
        PdfText t \<Rightarrow> Inr t
      | r \<Rightarrow> Inl (PdfError r))"

text \<open>
  The \<open>try\<close> block of \<open>processReportWithAI\<close>, steps 1 to 8: the result is the error thrown,
  if any, and the world as the block left it.
\<close>

definition pipelineSteps :: "services \<Rightarrow> string \<Rightarrow> world \<Rightarrow> (pipelineError + unit) \<times> world" where
  "pipelineSteps sv rid w0 =
     (case updateDoc sv UpdateProcessing rid
             (\<lambda>d. d\<lparr>status := Processing, updatedAt := now sv\<rparr>) w0 of
        Inl e \<Rightarrow> (Inl e, w0)
      | Inr w1 \<Rightarrow>
          if firestoreFails sv GetReport then (Inl (FirestoreError GetReport), w1)
          else (case reports w1 rid of
             None \<Rightarrow> (Inl ReportNotFound, w1)
           | Some reportDat \<Rightarrow>
               if firestoreFails sv GetLibrary then (Inl (FirestoreError GetLibrary), w1)
               else (case libraries w1 (libraryId reportDat) of
                  None \<Rightarrow> (Inl LibraryNotFound, w1)
                | Some libraryData \<Rightarrow>
                    (let libName = (case libraryDocName libraryData of
                                      None \<Rightarrow> ''Unknown Library''
                                    | Some n \<Rightarrow> if n \<noteq> [] then n else ''Unknown Library'')
                     in case downloadAndExtractPdfText sv (pdfPath reportDat) of
                          Inl e \<Rightarrow> (Inl e, w1)
                        | Inr pdfText \<Rightarrow>
                            (case processLargePdfWithClaudeAI (oracleEnvOf sv) (store w1) pdfText
                                    (docYear reportDat) libName of
                               (Inl e, console, h') \<Rightarrow>
                                 (Inl (OracleError e),
                                  w1\<lparr>store := h',
                                     consoleErrors := consoleErrors w1 + length console\<rparr>)
                             | (Inr processedData, console, h') \<Rightarrow>
                                 (let w2 = w1\<lparr>store := h',
                                              consoleErrors := consoleErrors w1 + length console\<rparr>;
                                      finalReportData =
                                        processedData\<lparr>reportId := Some rid,
                                                       libraryName := Some libName,
                                                       year := Some (docYear reportDat)\<rparr>
                                  in case setDoc sv rid finalReportData w2 of
                                       Inl e \<Rightarrow> (Inl e, w2)
                                     | Inr w3 \<Rightarrow>
                                         (case updateDoc sv UpdateCompleted rid
                                                 (\<lambda>d. d\<lparr>status := Completed,
                                                         updatedAt := now sv\<rparr>) w3 of
                                            Inl e \<Rightarrow> (Inl e, w3)
                                          | Inr w4 \<Rightarrow> (Inr (), w4))))))))"

text \<open>
  The whole function with its \<open>catch\<close>: the error goes to the console, the status write of
  the handler sets \<open>status\<close> and \<open>updatedAt\<close> and nothing else, a failure of that write goes
  to the console as well, and the result is \<open>false\<close>.
\<close>

definition processReportWithAI :: "services \<Rightarrow> string \<Rightarrow> world \<Rightarrow> bool \<times> world" where
  "processReportWithAI sv rid w =
     (case pipelineSteps sv rid w of
        (Inr u, w') \<Rightarrow> (True, w')
      | (Inl error, w') \<Rightarrow>
          (let w1 = w'\<lparr>consoleErrors := consoleErrors w' + 1\<rparr>
           in case updateDoc sv UpdateFailed rid
                     (\<lambda>d. d\<lparr>status := Failed, updatedAt := now sv\<rparr>) w1 of
                Inr w2 \<Rightarrow> (False, w2)
              | Inl updateError \<Rightarrow> (False, w1\<lparr>consoleErrors := consoleErrors w1 + 1\<rparr>)))"

section \<open>What the specification says, and the invariants of the loops\<close>

subsection \<open>Scalar groups and key findings, in the specification's words\<close>

text \<open>The first value of a sequence that is not absent.\<close>

fun firstPresent :: "'a option list \<Rightarrow> 'a option" where
  "firstPresent [] = None"
| "firstPresent (None # xs) = firstPresent xs"
| "firstPresent (Some x # xs) = Some x"

text \<open>The distinct values of a sequence, in the order of their first appearance.\<close>

fun firstSeen :: "'a list \<Rightarrow> 'a list" where
  "firstSeen [] = []"
| "firstSeen (x # xs) = x # removeAll x (firstSeen xs)"

text \<open>The strengths and the areas for development that a record contributes.\<close>

definition strengthsOf :: "ReportData \<Rightarrow> string list" where
  "strengthsOf r =
     (case keyFindings r of
        None \<Rightarrow> []
      | Some kf \<Rightarrow> (case strengths kf of None \<Rightarrow> [] | Some xs \<Rightarrow> xs))"

definition areasOf :: "ReportData \<Rightarrow> string list" where
  "areasOf r =
     (case keyFindings r of
        None \<Rightarrow> []
      | Some kf \<Rightarrow> (case areasForDevelopment kf of None \<Rightarrow> [] | Some xs \<Rightarrow> xs))"

subsection \<open>Category sections, in the specification's words\<close>

text \<open>
  The entries of a section of one record (none when the section is absent), and the
  entries of a section over a sequence of records, in chunk order.
\<close>

definition itemsOf :: "arrayProp \<Rightarrow> ReportData \<Rightarrow> addr list" where
  "itemsOf prop r = (case getProp prop r of None \<Rightarrow> [] | Some arr \<Rightarrow> arr)"












subsection \<open>Invariants of the loops of the merger\<close>

text \<open>
  The loop over the items of one section, started on the store \<open>h0\<close>: the objects of \<open>h0\<close>
  are as they were, the items are references to objects allocated since, and the indices
  in the name map are indices of \<open>items\<close>.
\<close>

definition frameInv :: "heap \<Rightarrow> mergeState \<Rightarrow> bool" where
  "frameInv h0 st =
     (case st of (h, items, nameMap) \<Rightarrow>
        take (length h0) h = h0 \<and> length h0 \<le> length h
        \<and> (\<forall>a\<in>set items. length h0 \<le> a \<and> a < length h)
        \<and> (\<forall>k i. nameMap k = Some i \<longrightarrow> i < length items))"

definition outputFresh :: "heap \<Rightarrow> ReportData \<times> heap \<Rightarrow> bool" where
  "outputFresh h0 mh =
     (take (length h0) (snd mh) = h0
      \<and> (\<forall>p. \<forall>a\<in>set (itemsOf p (fst mh)). length h0 \<le> a \<and> a < length (snd mh)))"

text \<open>The names of the items, and the invariant that they are distinct.\<close>

definition namesIn :: "heap \<Rightarrow> addr list \<Rightarrow> jsval option list" where
  "namesIn h items = map (\<lambda>a. map_of (h ! a) ''name'') items"

definition namesInv :: "mergeState \<Rightarrow> bool" where
  "namesInv st =
     (case st of (h, items, nameMap) \<Rightarrow>
        (\<forall>a\<in>set items. a < length h) \<and> distinct (namesIn h items)
        \<and> (\<forall>k. nameMap k = None \<longrightarrow> k \<notin> set (namesIn h items)))"

definition namesDistinct :: "ReportData \<times> heap \<Rightarrow> bool" where
  "namesDistinct mh =
     (\<forall>p. distinct (namesIn (snd mh) (itemsOf p (fst mh)))
          \<and> (\<forall>a\<in>set (itemsOf p (fst mh)). a < length (snd mh)))"





subsection \<open>The oracle stage, in the specification's words\<close>









text \<open>The error messages of the report documents.\<close>

definition messagesOf :: "world \<Rightarrow> string \<Rightarrow> string option option" where
  "messagesOf w r = map_option errorMessage (reports w r)"

subsection \<open>Concrete inputs\<close>

text \<open>
  Two records from two chunks, each with one entry named \<open>Adult Fiction\<close> in its
  \<open>collectionData\<close>, with the values 10 and 5.
\<close>

definition fictionHeap :: heap where
  "fictionHeap =
     [[(''name'', JStr ''Adult Fiction''), (''value'', JNum 10)],
      [(''name'', JStr ''Adult Fiction''), (''value'', JNum 5)]]"

definition fictionResults :: "ReportData list" where
  "fictionResults =
     [emptyRecord\<lparr>collectionData := Some [0]\<rparr>, emptyRecord\<lparr>collectionData := Some [1]\<rparr>]"

text \<open>
  Two records with a library overview each, the first one incomplete; and two records with
  four and four strengths, seven of them distinct.
\<close>

definition overviewResults :: "ReportData list" where
  "overviewResults =
     [emptyRecord\<lparr>libraryOverview :=
        Some \<lparr>populationServed = Some 100, annualVisits = None, registeredBorrowers = None,
              openHoursPerWeek = None\<rparr>\<rparr>,
      emptyRecord\<lparr>libraryOverview :=
        Some \<lparr>populationServed = Some 7, annualVisits = Some 8, registeredBorrowers = Some 9,
              openHoursPerWeek = Some 10\<rparr>\<rparr>]"

definition findingsResults :: "ReportData list" where
  "findingsResults =
     [emptyRecord\<lparr>keyFindings :=
        Some \<lparr>strengths = Some [''s1'', ''s2'', ''s3'', ''s4''], areasForDevelopment = None\<rparr>\<rparr>,
      emptyRecord\<lparr>keyFindings :=
        Some \<lparr>strengths = Some [''s5'', ''s2'', ''s6'', ''s7''],
              areasForDevelopment = Some [''a1'']\<rparr>\<rparr>]"


definition keyEnv :: oracleEnv where
  "keyEnv =
     \<lparr>claudeApiKey = None, nextPublicClaudeApiKey = Some ''key'',
      fetchMessages = (\<lambda>req. NotOk),
      parseJson = (\<lambda>h t. Some (emptyRecord, h))\<rparr>"

definition sampleServices :: services where
  "sampleServices =
     \<lparr>firestoreFails = (\<lambda>op. False), fetchPdf = (\<lambda>url. PdfText [97]),
      oracleEnvOf = keyEnv, now = 1\<rparr>"

definition sampleWorld :: world where
  "sampleWorld =
     \<lparr>reports = [''r1'' \<mapsto> \<lparr>status = Processing, errorMessage = None, pdfPath = ''u'',
                              libraryId = ''lib1'', docYear = 2023, updatedAt = 0\<rparr>],
      libraries = Map.empty, reportData = Map.empty, store = [], consoleErrors = 0\<rparr>"

section \<open>Properties of the chunker\<close>
















lemma splitTextIntoChunks_unfold:
  "splitTextIntoChunks input maxTokens
     = fst (foldl (chunkStep (maxTokens * charsPerToken)) ([], []) (paragraphsOf input))
       @ (if snd (foldl (chunkStep (maxTokens * charsPerToken)) ([], []) (paragraphsOf input)) \<noteq> []
          then [snd (foldl (chunkStep (maxTokens * charsPerToken)) ([], []) (paragraphsOf input))]
          else [])"
  by (simp add: splitTextIntoChunks_def Let_def split: prod.splits)



lemma chunkStep_nonempty:
  "\<forall>c\<in>set chunks. c \<noteq> [] \<Longrightarrow> \<forall>c\<in>set (fst (chunkStep m (chunks, cur) p)). c \<noteq> []"
  by (auto simp: chunkStep_def)

lemma chunk_loop_nonempty:
  "\<forall>c\<in>set chunks. c \<noteq> [] \<Longrightarrow> \<forall>c\<in>set (fst (foldl (chunkStep m) (chunks, cur) ps)). c \<noteq> []"
proof (induction ps arbitrary: chunks cur)
  case Nil then show ?case by simp
next
  case (Cons p ps)
  obtain c1 cur1 where st: "chunkStep m (chunks, cur) p = (c1, cur1)"
    by (cases "chunkStep m (chunks, cur) p")
  with chunkStep_nonempty [OF Cons.prems, where m=m and cur=cur and p=p]
  have "\<forall>c\<in>set c1. c \<noteq> []" by simp
  from Cons.IH [OF this, where cur=cur1] st show ?case by simp
qed

lemma chunkStep_some:
  "(fst (chunkStep m (chunks, cur) p) \<noteq> [] \<or> snd (chunkStep m (chunks, cur) p) \<noteq> [])
     = (chunks \<noteq> [] \<or> cur \<noteq> [] \<or> p \<noteq> [])"
  by (auto simp: chunkStep_def appendParagraph_def)

lemma chunk_loop_some:
  "(fst (foldl (chunkStep m) (chunks, cur) ps) \<noteq> [] \<or> snd (foldl (chunkStep m) (chunks, cur) ps) \<noteq> [])
     = (chunks \<noteq> [] \<or> cur \<noteq> [] \<or> (\<exists>p\<in>set ps. p \<noteq> []))"
proof (induction ps arbitrary: chunks cur)
  case Nil show ?case by simp
next
  case (Cons p ps)
  obtain c1 cur1 where st: "chunkStep m (chunks, cur) p = (c1, cur1)"
    by (cases "chunkStep m (chunks, cur) p")
  from chunkStep_some [where m=m and chunks=chunks and cur=cur and p=p] st
  have s: "(c1 \<noteq> [] \<or> cur1 \<noteq> []) = (chunks \<noteq> [] \<or> cur \<noteq> [] \<or> p \<noteq> [])" by simp
  from Cons.IH [where chunks=c1 and cur=cur1] st s show ?case by auto
qed

text \<open>
  Claim C9, as the code has it. The chunker has no failure mode at all: it is a total
  function of the input and the budget, and no budget is rejected. For every budget,
  positive or not, no chunk is the empty string, and the sequence of chunks is non-empty
  exactly when some paragraph of the input is non-empty.
\<close>

theorem chunks_nonempty_strings:
  "(\<forall>c\<in>set (splitTextIntoChunks input maxTokens). c \<noteq> []) \<and>
   (splitTextIntoChunks input maxTokens \<noteq> []) = (\<exists>p\<in>set (paragraphsOf input). p \<noteq> [])"
proof -
  let ?st = "foldl (chunkStep (maxTokens * charsPerToken)) ([], []) (paragraphsOf input)"
  have a: "\<forall>c\<in>set (fst ?st). c \<noteq> []"
    by (rule chunk_loop_nonempty) simp
  have b: "(fst ?st \<noteq> [] \<or> snd ?st \<noteq> []) = (\<exists>p\<in>set (paragraphsOf input). p \<noteq> [])"
    using chunk_loop_some [where m="maxTokens * charsPerToken" and chunks="[]" and cur="[]"
        and ps="paragraphsOf input"] by simp
  have out: "splitTextIntoChunks input maxTokens
      = fst ?st @ (if snd ?st \<noteq> [] then [snd ?st] else [])"
    by (rule splitTextIntoChunks_unfold)
  show ?thesis using a b out by auto
qed

text \<open>The theorem at the text \<open>a\n\nb\<close> with the budget \<open>-1\<close>.\<close>

theorem chunks_nonempty_strings_witness:
  "splitTextIntoChunks [97, 10, 10, 98] (- 1) = [[97], [98]]
   \<and> list_all (\<lambda>c. c \<noteq> []) (splitTextIntoChunks [97, 10, 10, 98] (- 1))
   \<and> (splitTextIntoChunks [97, 10, 10, 98] (- 1) \<noteq> [])
       = (\<exists>p\<in>set (paragraphsOf [97, 10, 10, 98]). p \<noteq> [])"
proof -
  have ev: "splitTextIntoChunks [97, 10, 10, 98] (- 1) = [[97], [98]]"
    by (simp add: splitTextIntoChunks_def paragraphsOf_def chunkStep_def appendParagraph_def
        charsPerToken_def LF_def isWhiteSpace_def paragraphBreak_def)
  from ev chunks_nonempty_strings [where input="[97, 10, 10, 98]" and maxTokens="- 1"]
  show ?thesis by (simp only: list_all_iff) blast
qed

text \<open>
  Claim C9 as the specification states it fails twice: the budget 0 is not rejected (the
  text \<open>a\<close> comes back as one chunk), and with the positive budget 1 the empty input gives
  the empty sequence of chunks.
\<close>

theorem chunker_budget_counterexample:
  "splitTextIntoChunks [97] 0 = [[97]] \<and> splitTextIntoChunks [] 1 = []"
  by (simp add: splitTextIntoChunks_def paragraphsOf_def chunkStep_def appendParagraph_def
      charsPerToken_def LF_def isWhiteSpace_def paragraphBreak_def)

section \<open>Concrete runs\<close>

lemma fiction_merge:
  "mergeResults fictionHeap fictionResults
     = (emptyRecord\<lparr>collectionData := Some [2]\<rparr>,
        fictionHeap @ [[(''name'', JStr ''Adult Fiction''), (''value'', JNum 15)]])"
  by (simp add: fictionHeap_def fictionResults_def mergeResults_def arrayProps_def mergeProp_def
      mergeArray_def mergeItem_def addKey_def mergeScalars_def emptyRecord_def
      mergeKeyFindings_def)






section \<open>Properties of the merger: scalar groups and key findings\<close>

lemma setProp_scalars [simp]:
  "libraryOverview (setProp p xs m) = libraryOverview m"
  "collectionOverview (setProp p xs m) = collectionOverview m"
  "usageStatistics (setProp p xs m) = usageStatistics m"
  "keyFindings (setProp p xs m) = keyFindings m"
  by (cases p; simp)+

lemma mergeProp_scalars:
  "libraryOverview (fst (mergeProp rs mh p)) = libraryOverview (fst mh)"
  "collectionOverview (fst (mergeProp rs mh p)) = collectionOverview (fst mh)"
  "usageStatistics (fst (mergeProp rs mh p)) = usageStatistics (fst mh)"
  "keyFindings (fst (mergeProp rs mh p)) = keyFindings (fst mh)"
  by (auto simp: mergeProp_def split: prod.splits)

lemma mergeProps_scalars:
  "libraryOverview (fst (foldl (mergeProp rs) mh ps)) = libraryOverview (fst mh)"
  "collectionOverview (fst (foldl (mergeProp rs) mh ps)) = collectionOverview (fst mh)"
  "usageStatistics (fst (foldl (mergeProp rs) mh ps)) = usageStatistics (fst mh)"
  "keyFindings (fst (foldl (mergeProp rs) mh ps)) = keyFindings (fst mh)"
  by (induction ps arbitrary: mh; simp add: mergeProp_scalars)+

lemma mergeKeyFindings_scalars:
  "libraryOverview (mergeKeyFindings rs m) = libraryOverview m"
  "collectionOverview (mergeKeyFindings rs m) = collectionOverview m"
  "usageStatistics (mergeKeyFindings rs m) = usageStatistics m"
  by (auto simp: mergeKeyFindings_def split: prod.splits)

lemma mergeScalars_fields:
  "libraryOverview (mergeScalars m r)
     = (case libraryOverview m of None \<Rightarrow> libraryOverview r | Some x \<Rightarrow> Some x)"
  "collectionOverview (mergeScalars m r)
     = (case collectionOverview m of None \<Rightarrow> collectionOverview r | Some x \<Rightarrow> Some x)"
  "usageStatistics (mergeScalars m r)
     = (case usageStatistics m of None \<Rightarrow> usageStatistics r | Some x \<Rightarrow> Some x)"
  "keyFindings (mergeScalars m r) = keyFindings m"
  by (auto simp: mergeScalars_def Let_def split: option.splits)

lemma mergeScalars_loop:
  "libraryOverview (foldl mergeScalars m rs)
     = (case libraryOverview m of None \<Rightarrow> firstPresent (map libraryOverview rs) | Some x \<Rightarrow> Some x)"
  "collectionOverview (foldl mergeScalars m rs)
     = (case collectionOverview m of None \<Rightarrow> firstPresent (map collectionOverview rs) | Some x \<Rightarrow> Some x)"
  "usageStatistics (foldl mergeScalars m rs)
     = (case usageStatistics m of None \<Rightarrow> firstPresent (map usageStatistics rs) | Some x \<Rightarrow> Some x)"
  "keyFindings (foldl mergeScalars m rs) = keyFindings m"
  by (induction rs arbitrary: m; simp add: mergeScalars_fields split: option.splits)+

lemma mergeResults_fst:
  "fst (mergeResults h rs)
     = mergeKeyFindings rs (fst (foldl (mergeProp rs) (foldl mergeScalars emptyRecord rs, h) arrayProps))"
  by (simp add: mergeResults_def split: prod.splits)

text \<open>
  Claim C2. For every sequence of partial records (and every store), each of the sections
  \<open>libraryOverview\<close>, \<open>collectionOverview\<close> and \<open>usageStatistics\<close> of the merged record is
  the first value of that section in the sequence that is not absent, taken whole: a later
  record's version of a section that an earlier record has filled is ignored, and no field
  of it is merged in.
\<close>

theorem scalar_groups_first_present:
  "libraryOverview (fst (mergeResults h results)) = firstPresent (map libraryOverview results)
   \<and> collectionOverview (fst (mergeResults h results)) = firstPresent (map collectionOverview results)
   \<and> usageStatistics (fst (mergeResults h results)) = firstPresent (map usageStatistics results)"
  by (simp add: mergeResults_fst mergeKeyFindings_scalars mergeProps_scalars mergeScalars_loop
      emptyRecord_def)

text \<open>
  The theorem at two records with a library overview each: the first overview, which has
  one field only, is the result, and nothing of the second, complete one is taken.
\<close>

theorem scalar_groups_first_present_witness:
  "libraryOverview (fst (mergeResults [] overviewResults))
     = Some \<lparr>populationServed = Some 100, annualVisits = None, registeredBorrowers = None,
             openHoursPerWeek = None\<rparr>"
  using scalar_groups_first_present [of "[]" overviewResults]
  by (simp add: overviewResults_def emptyRecord_def)

lemma setAdd_loop: "foldl setAdd acc xs = acc @ filter (\<lambda>y. y \<notin> set acc) (firstSeen xs)"
proof (induction xs arbitrary: acc)
  case Nil show ?case by simp
next
  case (Cons x xs)
  show ?case
  proof (cases "x \<in> set acc")
    case True
    then have "filter (\<lambda>y. y \<notin> set acc) (removeAll x (firstSeen xs))
        = filter (\<lambda>y. y \<notin> set acc) (firstSeen xs)"
      by (auto simp: removeAll_filter_not_eq intro: filter_cong)
    with True Cons.IH [of acc] show ?thesis by (simp add: setAdd_def)
  next
    case False
    have "filter (\<lambda>y. y \<notin> set (acc @ [x])) (firstSeen xs)
        = filter (\<lambda>y. y \<notin> set acc) (removeAll x (firstSeen xs))"
      by (auto simp: removeAll_filter_not_eq intro: filter_cong)
    with False Cons.IH [of "acc @ [x]"] show ?thesis by (simp add: setAdd_def)
  qed
qed

lemma setAdd_firstSeen: "foldl setAdd [] xs = firstSeen xs"
  by (simp add: setAdd_loop)

lemma collectFindings_loop:
  "fst (foldl collectFindings (s, a) rs) = foldl setAdd s (concat (map strengthsOf rs))"
  "snd (foldl collectFindings (s, a) rs) = foldl setAdd a (concat (map areasOf rs))"
  by (induction rs arbitrary: s a;
      simp add: collectFindings_def strengthsOf_def areasOf_def split: option.splits)+



theorem key_findings_result:
  "keyFindings (fst (mergeResults h results))
     = (if list_all (\<lambda>r. keyFindings r = None) results then None
        else Some \<lparr>strengths = Some (take 5 (firstSeen (concat (map strengthsOf results)))),
                   areasForDevelopment = Some (take 5 (firstSeen (concat (map areasOf results))))\<rparr>)"
proof -
  have k: "keyFindings (fst (foldl (mergeProp results) (foldl mergeScalars emptyRecord results, h) arrayProps)) = None"
    by (simp add: mergeProps_scalars mergeScalars_loop emptyRecord_def)
  have e: "list_ex (\<lambda>r. keyFindings r \<noteq> None) results = (\<not> list_all (\<lambda>r. keyFindings r = None) results)"
    by (simp add: list_ex_iff list_all_iff)
  obtain s a where sa: "foldl collectFindings ([], []) results = (s, a)"
    by (cases "foldl collectFindings ([], []) results")
  from collectFindings_loop [of "[]" "[]" results] sa
  have "s = firstSeen (concat (map strengthsOf results))" "a = firstSeen (concat (map areasOf results))"
    by (simp_all add: setAdd_firstSeen)
  with k e sa show ?thesis
    by (simp add: mergeResults_fst mergeKeyFindings_def)
qed

text \<open>
  Claim C4. For every sequence of partial records (and every store): if no record has a
  findings section, the merged record has none; otherwise its strengths are the first
  five of the distinct strength strings of all records in the order of their first
  appearance (strings compared as they are, case included), and its areas for development
  are formed in the same way, independently. In particular, records that contribute seven
  distinct strengths give exactly five strengths.
\<close>

theorem findings_union_capped:
  "keyFindings (fst (mergeResults h results))
     = (if list_all (\<lambda>r. keyFindings r = None) results then None
        else Some \<lparr>strengths = Some (take 5 (firstSeen (concat (map strengthsOf results)))),
                   areasForDevelopment = Some (take 5 (firstSeen (concat (map areasOf results))))\<rparr>)
   \<and> (length (firstSeen (concat (map strengthsOf results))) = 7 \<longrightarrow>
        map_option (\<lambda>kf. map_option length (strengths kf)) (keyFindings (fst (mergeResults h results)))
          = Some (Some 5))"
proof -
  note r = key_findings_result [of h results]
  have "\<not> list_all (\<lambda>r. keyFindings r = None) results"
    if l: "length (firstSeen (concat (map strengthsOf results))) = 7"
  proof
    assume "list_all (\<lambda>r. keyFindings r = None) results"
    then have "concat (map strengthsOf results) = []"
      by (auto simp: list_all_iff strengthsOf_def)
    with l show False by simp
  qed
  with r show ?thesis by auto
qed

text \<open>
  The theorem at two records with four strengths each, seven of them distinct: the merged
  record has the first five, in the order of their first appearance.
\<close>

theorem findings_union_capped_witness:
  "length (firstSeen (concat (map strengthsOf findingsResults))) = 7
   \<and> keyFindings (fst (mergeResults [] findingsResults))
       = Some \<lparr>strengths = Some [''s1'', ''s2'', ''s3'', ''s4'', ''s5''],
               areasForDevelopment = Some [''a1'']\<rparr>"
  using findings_union_capped [of "[]" findingsResults]
  by (simp add: findingsResults_def strengthsOf_def areasOf_def emptyRecord_def)


section \<open>Properties of the merger: the input is not written to\<close>

lemma addKey_length: "length (addKey a e h k) = length h"
  by (simp add: addKey_def split: option.splits jsval.splits)

lemma addKey_other: "b \<noteq> e \<Longrightarrow> addKey a e h k ! b = h ! b"
  by (simp add: addKey_def split: option.splits jsval.splits)

lemma addKey_take: "n \<le> e \<Longrightarrow> take n (addKey a e h k) = take n h"
  by (simp add: addKey_def split: option.splits jsval.splits)

lemma addKeys_length: "length (foldl (addKey a e) h ks) = length h"
  by (induction ks arbitrary: h) (simp_all add: addKey_length)


lemma addKeys_take: "n \<le> e \<Longrightarrow> take n (foldl (addKey a e) h ks) = take n h"
  by (induction ks arbitrary: h) (simp_all add: addKey_take)

lemma mergeItem_frame:
  assumes "frameInv h0 st"
  shows "frameInv h0 (mergeItem st a)"
proof -
  obtain h items nameMap where st: "st = (h, items, nameMap)" by (cases st)
  show ?thesis
  proof (cases "nameMap (map_of (h ! a) ''name'')")
    case None
    with assms st show ?thesis
      by (auto simp: frameInv_def mergeItem_def less_Suc_eq)
  next
    case (Some i)
    with assms st have i: "i < length items" by (auto simp: frameInv_def)
    with assms st have e: "length h0 \<le> items ! i" by (auto simp: frameInv_def)
    from Some st have m: "mergeItem st a
        = (foldl (addKey a (items ! i)) h (map fst (h ! a)), items, nameMap)"
      by (simp add: mergeItem_def)
    from assms st show ?thesis
      unfolding m frameInv_def by (simp add: addKeys_take [OF e] addKeys_length)
  qed
qed

lemma mergeItems_frame: "frameInv h0 st \<Longrightarrow> frameInv h0 (foldl mergeItem st as)"
  by (induction as arbitrary: st) (simp_all add: mergeItem_frame)

lemma mergeArray_frame: "frameInv h0 st \<Longrightarrow> frameInv h0 (mergeArray p st r)"
  by (simp add: mergeArray_def mergeItems_frame split: option.splits)

lemma mergeArrays_frame: "frameInv h0 st \<Longrightarrow> frameInv h0 (foldl (mergeArray p) st rs)"
  by (induction rs arbitrary: st) (simp_all add: mergeArray_frame)

lemma frameInv_init: "frameInv h (h, [], Map.empty)"
  by (simp add: frameInv_def)

lemma itemsOf_setProp: "itemsOf p (setProp q xs m) = (if p = q then xs else itemsOf p m)"
  by (cases p; cases q; simp add: itemsOf_def)

lemma mergeProp_fresh:
  assumes "outputFresh h0 mh"
  shows "outputFresh h0 (mergeProp rs mh q)"
proof -
  obtain m h where mh: "mh = (m, h)" by (cases mh)
  obtain h' items nameMap where r: "foldl (mergeArray q) (h, [], Map.empty) rs = (h', items, nameMap)"
    by (cases "foldl (mergeArray q) (h, [], Map.empty) rs")
  from mergeArrays_frame [OF frameInv_init, of h q rs] r
  have f: "take (length h) h' = h" "length h \<le> length h'"
      "\<forall>a\<in>set items. length h \<le> a \<and> a < length h'"
    by (simp_all add: frameInv_def)
  from assms mh have o: "take (length h0) h = h0"
      "\<forall>p. \<forall>a\<in>set (itemsOf p m). length h0 \<le> a \<and> a < length h"
    by (simp_all add: outputFresh_def)
  have le: "length h0 \<le> length h"
  proof -
    have "length (take (length h0) h) = length h0" using o(1) by simp
    then show ?thesis by simp
  qed
  have "take (length h0) h' = take (length h0) (take (length h) h')"
    using le by (simp add: min_def)
  with f(1) o(1) have t: "take (length h0) h' = h0" by simp
  have out: "mergeProp rs mh q = (if length items > 0 then setProp q items m else m, h')"
    using mh r by (simp add: mergeProp_def)
  have old: "\<And>p a. a \<in> set (itemsOf p m) \<Longrightarrow> length h0 \<le> a \<and> a < length h'"
    using o(2) f(2) by fastforce
  have new: "\<And>a. a \<in> set items \<Longrightarrow> length h0 \<le> a \<and> a < length h'"
    using f(3) le by fastforce
  show ?thesis
    unfolding out outputFresh_def using t old new
    by (auto simp: itemsOf_setProp)
qed

lemma mergeProps_fresh: "outputFresh h0 mh \<Longrightarrow> outputFresh h0 (foldl (mergeProp rs) mh ps)"
  by (induction ps arbitrary: mh) (simp_all add: mergeProp_fresh)

lemma itemsOf_mergeScalars: "itemsOf p (mergeScalars m r) = itemsOf p m"
  by (cases p; simp add: itemsOf_def mergeScalars_def Let_def)

lemma itemsOf_scalars_loop: "itemsOf p (foldl mergeScalars m rs) = itemsOf p m"
  by (induction rs arbitrary: m) (simp_all add: itemsOf_mergeScalars)

lemma itemsOf_emptyRecord: "itemsOf p emptyRecord = []"
  by (cases p; simp add: itemsOf_def emptyRecord_def)

lemma itemsOf_mergeKeyFindings: "itemsOf p (mergeKeyFindings rs m) = itemsOf p m"
  by (cases p; simp add: itemsOf_def mergeKeyFindings_def split: prod.splits)

lemma mergeResults_snd:
  "snd (mergeResults h rs)
     = snd (foldl (mergeProp rs) (foldl mergeScalars emptyRecord rs, h) arrayProps)"
  by (simp add: mergeResults_def split: prod.splits)

text \<open>
  Claim C10. For every store and every sequence of partial records, every object that was
  in the store before \<open>mergeResults\<close> is in it unchanged afterwards (the records and their
  arrays are values of the model, which the function only reads), and every entry of every
  category section of the output is a reference to an object allocated during the call: the
  sums are written to the copies that \<open>{...item}\<close> made, never to an entry of the input.
\<close>

theorem merge_leaves_input_unchanged:
  "take (length h) (snd (mergeResults h results)) = h
   \<and> (\<forall>p. \<forall>a\<in>set (itemsOf p (fst (mergeResults h results))).
          length h \<le> a \<and> a < length (snd (mergeResults h results)))"
proof -
  let ?mh = "foldl (mergeProp results) (foldl mergeScalars emptyRecord results, h) arrayProps"
  have "outputFresh h (foldl mergeScalars emptyRecord results, h)"
    by (simp add: outputFresh_def itemsOf_scalars_loop itemsOf_emptyRecord)
  then have "outputFresh h ?mh" by (rule mergeProps_fresh)
  then show ?thesis
    by (simp add: outputFresh_def mergeResults_snd mergeResults_fst itemsOf_mergeKeyFindings)
qed

text \<open>
  The theorem at the two \<open>Adult Fiction\<close> records: the two objects of the input keep their
  values 10 and 5, and the sum 15 is in a third object, the only entry of the output.
\<close>

theorem merge_leaves_input_unchanged_witness:
  "take (length fictionHeap) (snd (mergeResults fictionHeap fictionResults)) = fictionHeap
   \<and> itemsOf CollectionData (fst (mergeResults fictionHeap fictionResults)) = [2]
   \<and> snd (mergeResults fictionHeap fictionResults) ! 2
       = [(''name'', JStr ''Adult Fiction''), (''value'', JNum 15)]"
proof -
  from merge_leaves_input_unchanged [of fictionHeap fictionResults]
  have a: "take (length fictionHeap) (snd (mergeResults fictionHeap fictionResults)) = fictionHeap"
    by (rule conjunct1)
  have b: "itemsOf CollectionData (fst (mergeResults fictionHeap fictionResults)) = [2]"
    by (simp add: fiction_merge itemsOf_def)
  have c: "snd (mergeResults fictionHeap fictionResults) ! 2
       = [(''name'', JStr ''Adult Fiction''), (''value'', JNum 15)]"
    unfolding fiction_merge by (simp add: fictionHeap_def)
  from a b c show ?thesis by blast
qed


section \<open>Properties of the merger: names are distinct\<close>

lemma addKey_name: "map_of (addKey a e h k ! b) ''name'' = map_of (h ! b) ''name''"
proof (cases "b = e \<and> e < length h")
  case True
  then show ?thesis
    by (simp add: addKey_def update_conv' split: option.splits jsval.splits)
next
  case False
  show ?thesis
  proof (cases "b = e")
    case True
    with False have "length h \<le> e" by simp
    then have "\<And>x. h[e := x] = h" by (rule list_update_beyond)
    then show ?thesis
      by (simp add: addKey_def split: option.splits jsval.splits)
  next
    case False
    then show ?thesis by (simp add: addKey_other)
  qed
qed

lemma addKeys_name: "map_of (foldl (addKey a e) h ks ! b) ''name'' = map_of (h ! b) ''name''"
  by (induction ks arbitrary: h) (simp_all add: addKey_name)

lemma namesIn_addKeys: "namesIn (foldl (addKey a e) h ks) items = namesIn h items"
  by (simp add: namesIn_def addKeys_name)

lemma namesIn_alloc: "\<forall>a\<in>set items. a < length h \<Longrightarrow> namesIn (h @ [x]) items = namesIn h items"
  by (simp add: namesIn_def nth_append)

lemma mergeItem_names:
  assumes "namesInv st"
  shows "namesInv (mergeItem st a)"
proof -
  obtain h items nameMap where st: "st = (h, items, nameMap)" by (cases st)
  from assms st have inv: "\<forall>a\<in>set items. a < length h" "distinct (namesIn h items)"
      "\<forall>k. nameMap k = None \<longrightarrow> k \<notin> set (namesIn h items)"
    by (simp_all add: namesInv_def)
  show ?thesis
  proof (cases "nameMap (map_of (h ! a) ''name'')")
    case None
    have n: "namesIn (h @ [h ! a]) (items @ [length h]) = namesIn h items @ [map_of (h ! a) ''name'']"
      using namesIn_alloc [OF inv(1), of "h ! a"] by (simp add: namesIn_def)
    from None st have m: "mergeItem st a
        = (h @ [h ! a], items @ [length h], nameMap(map_of (h ! a) ''name'' \<mapsto> length items))"
      by (simp add: mergeItem_def)
    from None inv show ?thesis
      unfolding m namesInv_def by (auto simp: n less_Suc_eq)
  next
    case (Some i)
    with st have m: "mergeItem st a
        = (foldl (addKey a (items ! i)) h (map fst (h ! a)), items, nameMap)"
      by (simp add: mergeItem_def)
    from inv show ?thesis
      unfolding m namesInv_def by (simp add: namesIn_addKeys addKeys_length)
  qed
qed

lemma mergeItems_names: "namesInv st \<Longrightarrow> namesInv (foldl mergeItem st as)"
  by (induction as arbitrary: st) (simp_all add: mergeItem_names)

lemma mergeArray_names: "namesInv st \<Longrightarrow> namesInv (mergeArray p st r)"
  by (simp add: mergeArray_def mergeItems_names split: option.splits)

lemma mergeArrays_names: "namesInv st \<Longrightarrow> namesInv (foldl (mergeArray p) st rs)"
  by (induction rs arbitrary: st) (simp_all add: mergeArray_names)

lemma namesInv_init: "namesInv (h, [], Map.empty)"
  by (simp add: namesInv_def namesIn_def)

lemma namesIn_frame:
  assumes "take (length h) h' = h" and "\<forall>a\<in>set items. a < length h"
  shows "namesIn h' items = namesIn h items"
proof -
  have "\<And>a. a \<in> set items \<Longrightarrow> h' ! a = h ! a"
  proof -
    fix a assume "a \<in> set items"
    with assms(2) have "a < length h" by simp
    then have "take (length h) h' ! a = h' ! a" by simp
    with assms(1) show "h' ! a = h ! a" by simp
  qed
  then show ?thesis by (simp add: namesIn_def)
qed

lemma mergeProp_names:
  assumes "namesDistinct mh"
  shows "namesDistinct (mergeProp rs mh q)"
proof -
  obtain m h where mh: "mh = (m, h)" by (cases mh)
  obtain h' items nameMap where r: "foldl (mergeArray q) (h, [], Map.empty) rs = (h', items, nameMap)"
    by (cases "foldl (mergeArray q) (h, [], Map.empty) rs")
  from mergeArrays_frame [OF frameInv_init, of h q rs] r
  have f: "take (length h) h' = h" "length h \<le> length h'"
    by (simp_all add: frameInv_def)
  from mergeArrays_names [OF namesInv_init, of q h rs] r
  have n: "\<forall>a\<in>set items. a < length h'" "distinct (namesIn h' items)"
    by (simp_all add: namesInv_def)
  from assms mh have o: "\<And>p. distinct (namesIn h (itemsOf p m))"
      "\<And>p. \<forall>a\<in>set (itemsOf p m). a < length h"
    by (simp_all add: namesDistinct_def)
  have old: "\<And>p. distinct (namesIn h' (itemsOf p m))"
    using namesIn_frame [OF f(1) o(2)] o(1) by simp
  have old2: "\<And>p a. a \<in> set (itemsOf p m) \<Longrightarrow> a < length h'"
    using o(2) f(2) by fastforce
  have out: "mergeProp rs mh q = (if length items > 0 then setProp q items m else m, h')"
    using mh r by (simp add: mergeProp_def)
  show ?thesis
    unfolding out namesDistinct_def using old old2 n
    by (auto simp: itemsOf_setProp)
qed

lemma mergeProps_names: "namesDistinct mh \<Longrightarrow> namesDistinct (foldl (mergeProp rs) mh ps)"
  by (induction ps arbitrary: mh) (simp_all add: mergeProp_names)

text \<open>
  Claim C5. For every store, every sequence of partial records and every category section,
  the names of the entries of the merged section (the values of their property \<open>name\<close>,
  read in the store after the merge) are pairwise distinct.
\<close>

theorem merged_names_distinct:
  "distinct (map (\<lambda>a. map_of (snd (mergeResults h results) ! a) ''name'')
      (itemsOf p (fst (mergeResults h results))))"
proof -
  let ?mh = "foldl (mergeProp results) (foldl mergeScalars emptyRecord results, h) arrayProps"
  have "namesDistinct (foldl mergeScalars emptyRecord results, h)"
    by (simp add: namesDistinct_def itemsOf_scalars_loop itemsOf_emptyRecord namesIn_def)
  then have "namesDistinct ?mh" by (rule mergeProps_names)
  then have "distinct (namesIn (snd ?mh) (itemsOf p (fst ?mh)))"
    by (simp add: namesDistinct_def)
  then show ?thesis
    by (simp add: namesIn_def mergeResults_snd mergeResults_fst itemsOf_mergeKeyFindings)
qed

text \<open>The theorem at the two \<open>Adult Fiction\<close> records and the section \<open>collectionData\<close>.\<close>

theorem merged_names_distinct_witness:
  "distinct (map (\<lambda>a. map_of (snd (mergeResults fictionHeap fictionResults) ! a) ''name'')
      (itemsOf CollectionData (fst (mergeResults fictionHeap fictionResults))))"
  by (rule merged_names_distinct)


section \<open>Properties of the merger: the loop over the keys\<close>












section \<open>Properties of the merger: the loop over the items\<close>








section \<open>Properties of the merger: the category sections\<close>














section \<open>Properties of the oracle stage: empty records are neutral\<close>











section \<open>Properties of the oracle stage: failed chunks\<close>










text \<open>
  Claim C7, at a run whose library document is missing: the fatal error \<open>Library not found\<close>
  is thrown, the result is \<open>false\<close> and the status \<open>Failed\<close> is written, but the error
  message of the report document is still absent: the status write of the handler carries
  \<open>status\<close> and \<open>updatedAt\<close> only.
\<close>

theorem failed_run_writes_no_message:
  "pipelineSteps sampleServices ''r1'' sampleWorld = (Inl LibraryNotFound, sampleWorld\<lparr>reports := [''r1'' \<mapsto> \<lparr>status = Processing, errorMessage = None, pdfPath = ''u'',
                              libraryId = ''lib1'', docYear = 2023, updatedAt = 1\<rparr>]\<rparr>)
   \<and> fst (processReportWithAI sampleServices ''r1'' sampleWorld) = False
   \<and> reports (snd (processReportWithAI sampleServices ''r1'' sampleWorld)) ''r1''
       = Some \<lparr>status = Failed, errorMessage = None, pdfPath = ''u'',
                libraryId = ''lib1'', docYear = 2023, updatedAt = 1\<rparr>"
  by (simp add: processReportWithAI_def pipelineSteps_def updateDoc_def sampleServices_def
      sampleWorld_def)




section \<open>Properties of the orchestrator\<close>

lemma updateDoc_messages:
  assumes "updateDoc sv op rid f w = Inr w'" "\<And>d. errorMessage (f d) = errorMessage d"
  shows "messagesOf w' = messagesOf w"
  using assms
  by (auto simp: updateDoc_def messagesOf_def fun_eq_iff split: if_splits option.splits)

lemma setDoc_messages: "setDoc sv rid d w = Inr w' \<Longrightarrow> messagesOf w' = messagesOf w"
  by (auto simp: setDoc_def messagesOf_def fun_eq_iff split: if_splits)

lemma messagesOf_update [simp]:
  "messagesOf (store_update f w) = messagesOf w"
  "messagesOf (consoleErrors_update g w) = messagesOf w"
  "messagesOf (reportData_update k w) = messagesOf w"
  by (simp_all add: messagesOf_def fun_eq_iff)

lemma pipelineSteps_messages: "messagesOf (snd (pipelineSteps sv rid w)) = messagesOf w"
proof (cases "updateDoc sv UpdateProcessing rid (\<lambda>d. d\<lparr>status := Processing, updatedAt := now sv\<rparr>) w")
  case (Inl e)
  then show ?thesis by (simp add: pipelineSteps_def)
next
  case (Inr w1)
  have m1: "messagesOf w1 = messagesOf w"
    by (rule updateDoc_messages [OF Inr]) simp
  have "messagesOf (snd (pipelineSteps sv rid w)) = messagesOf w1"
    unfolding pipelineSteps_def Inr
    by (auto simp: Let_def
        dest!: setDoc_messages updateDoc_messages
        split: option.splits sum.splits prod.splits if_splits)
  with m1 show ?thesis by simp
qed

lemma processReportWithAI_messages:
  "messagesOf (snd (processReportWithAI sv rid w)) = messagesOf w"
proof (cases "pipelineSteps sv rid w")
  case (Pair res w')
  with pipelineSteps_messages [of sv rid w] have m: "messagesOf w' = messagesOf w" by simp
  show ?thesis
  proof (cases res)
    case (Inr u)
    with Pair m show ?thesis by (simp add: processReportWithAI_def)
  next
    case (Inl e)
    show ?thesis
    proof (cases "updateDoc sv UpdateFailed rid (\<lambda>d. d\<lparr>status := Failed, updatedAt := now sv\<rparr>)
        (w'\<lparr>consoleErrors := consoleErrors w' + 1\<rparr>)")
      case (Inl e2)
      with Pair \<open>res = Inl e\<close> m show ?thesis by (simp add: processReportWithAI_def Let_def)
    next
      case (Inr w2)
      have "messagesOf w2 = messagesOf (w'\<lparr>consoleErrors := consoleErrors w' + 1\<rparr>)"
        by (rule updateDoc_messages [OF Inr]) simp
      with Pair \<open>res = Inl e\<close> m Inr show ?thesis by (simp add: processReportWithAI_def Let_def)
    qed
  qed
qed

lemma processReportWithAI_result:
  "fst (processReportWithAI sv rid w) = (\<exists>u. fst (pipelineSteps sv rid w) = Inr u)"
  by (cases "pipelineSteps sv rid w")
     (auto simp: processReportWithAI_def Let_def split: sum.splits)

end
